theory Spec2Isabelle
  imports Complex_Main "HOL-Library.Word" "HOL-Library.Multiset" "HOL-Library.Log_Nat"
begin

section \<open>Values of the JavaScript runtime\<close>

text \<open>
  Bytes of an \<^verbatim>\<open>ArrayBuffer\<close> are \<open>8 word\<close>. An element of the position
  \<^verbatim>\<open>Float32Array\<close> is kept as the 32-bit pattern of the IEEE-754 single it holds:
  positions are only read from the wire and copied, never computed with, so the pattern is the
  value (the one liberty an engine has, the payload of a NaN, is not modelled).
  A colour is computed (\<^verbatim>\<open>c / 255.0\<close>), so an element of a colour
  \<^verbatim>\<open>Float32Array\<close> is a number: the rational value of the single it holds, or NaN.
\<close>

type_synonym byte = "8 word"
type_synonym f32 = "32 word"

datatype jsnum = Num rat | NaN

datatype js_error = RangeError | TypeError

text \<open>
  IEEE-754 rounding to nearest, ties to even, of a positive rational to a binary format with
  \<open>p\<close> significant bits: \<open>log2_floor x\<close> is the exponent of \<open>x\<close>
  (\<open>2 powi e \<le> x < 2 powi (e + 1)\<close>), a unit in the last place is
  \<open>2 powi (e - p + 1)\<close>, and \<open>x\<close> goes to the nearest multiple of it, to the even
  one when it lies half way. Zero stays zero. The exponent range of the format (subnormal
  numbers, overflow) is left out: the only values rounded are the quotients \<open>c / 255\<close> of
  a byte, which are 0 or lie between \<open>1 / 255\<close> and 1.
\<close>

definition log2_floor :: "rat \<Rightarrow> int" where
  "log2_floor x =
     (let (a, b) = quotient_of x; d = bitlen a - bitlen b
      in if 2 powi d \<le> x then d else d - 1)"

definition round_to_bits :: "nat \<Rightarrow> rat \<Rightarrow> rat" where
  "round_to_bits p x =
     (if x \<le> 0 then 0
      else
        (let ulp = 2 powi (log2_floor x - int p + 1);
             q = x / ulp;
             n = \<lfloor>q\<rfloor>;
             r = q - of_int n;
             m = (if r < 1 / 2 then n else if 1 / 2 < r then n + 1
                  else if even n then n else n + 1)
         in of_int m * ulp))"

text \<open>
  \<^verbatim>\<open>c / 255.0\<close> stored into a \<^verbatim>\<open>Float32Array\<close>, for a byte \<open>c\<close>: the
  division is that of doubles (53 significant bits), the store rounds the double to the
  nearest single (24 significant bits).
\<close>

definition divide_by_255 :: "byte \<Rightarrow> jsnum" where
  "divide_by_255 c = Num (round_to_bits 24 (round_to_bits 53 (of_nat (unat c) / 255)))"

section \<open>Frame codec: the DataView reads\<close>

text \<open>
  \<^verbatim>\<open>DataView.prototype.getUint8/getUint32/getFloat32\<close> throw a RangeError when the
  read would go past the end of the buffer; all multi-byte reads of the source pass
  \<^verbatim>\<open>littleEndian = true\<close>.
\<close>

definition le32 :: "byte list \<Rightarrow> nat" where
  "le32 bs = unat (bs ! 0) + 256 * unat (bs ! 1) + 65536 * unat (bs ! 2) + 16777216 * unat (bs ! 3)"

definition getUint8 :: "byte list \<Rightarrow> nat \<Rightarrow> js_error + byte" where
  "getUint8 dv offset = (if offset + 1 \<le> length dv then Inr (dv ! offset) else Inl RangeError)"

definition getUint32 :: "byte list \<Rightarrow> nat \<Rightarrow> js_error + nat" where
  "getUint32 dv offset =
     (if offset + 4 \<le> length dv then Inr (le32 (take 4 (drop offset dv))) else Inl RangeError)"

definition getFloat32 :: "byte list \<Rightarrow> nat \<Rightarrow> js_error + f32" where
  "getFloat32 dv offset =
     (if offset + 4 \<le> length dv then Inr (word_of_nat (le32 (take 4 (drop offset dv))))
      else Inl RangeError)"

text \<open>
  The two reading loops of \<^verbatim>\<open>parsePointCloudData\<close>
  (\<^verbatim>\<open>for (let i = 0; i < numPoints * 3; i++) { a[i] = dataView.getX(offset); offset += w; }\<close>),
  by recursion on the number of iterations left. They return the values read and the offset
  after the last read.
\<close>

fun read_floats :: "byte list \<Rightarrow> nat \<Rightarrow> nat \<Rightarrow> js_error + (f32 list \<times> nat)" where
  "read_floats dv offset 0 = Inr ([], offset)"
| "read_floats dv offset (Suc k) =
     (case getFloat32 dv offset of
        Inl e \<Rightarrow> Inl e
      | Inr v \<Rightarrow>
          (case read_floats dv (offset + 4) k of
             Inl e \<Rightarrow> Inl e
           | Inr (vs, offset') \<Rightarrow> Inr (v # vs, offset')))"

fun read_bytes :: "byte list \<Rightarrow> nat \<Rightarrow> nat \<Rightarrow> js_error + (byte list \<times> nat)" where
  "read_bytes dv offset 0 = Inr ([], offset)"
| "read_bytes dv offset (Suc k) =
     (case getUint8 dv offset of
        Inl e \<Rightarrow> Inl e
      | Inr v \<Rightarrow>
          (case read_bytes dv (offset + 1) k of
             Inl e \<Rightarrow> Inl e
           | Inr (vs, offset') \<Rightarrow> Inr (v # vs, offset')))"

text \<open>
  The decoded frame handed to \<^verbatim>\<open>updatePointCloud(positionsArray, colorsArray, numPoints)\<close>;
  \<^verbatim>\<open>colorsArray\<close> is \<^verbatim>\<open>null\<close> (\<open>None\<close>) when the flag byte is 0.
\<close>

record frame =
  positionsArray :: "f32 list"
  colorsArray :: "byte list option"
  numPoints :: nat

text \<open>
  The parsing part of \<^verbatim>\<open>parsePointCloudData\<close> (PCV.vue), on the inflated bytes.
  The two \<^verbatim>\<open>new Float32Array/Uint8Array(numPoints * 3)\<close> are taken to succeed.
\<close>

definition decode :: "byte list \<Rightarrow> js_error + frame" where
  "decode dv =
     (case getUint32 dv 0 of
        Inl e \<Rightarrow> Inl e
      | Inr n \<Rightarrow>
     (case getUint8 dv 4 of
        Inl e \<Rightarrow> Inl e
      | Inr hasColors \<Rightarrow>
     (case read_floats dv 5 (n * 3) of
        Inl e \<Rightarrow> Inl e
      | Inr (ps, offset) \<Rightarrow>
          if hasColors \<noteq> 0 then
            (case read_bytes dv offset (n * 3) of
               Inl e \<Rightarrow> Inl e
             | Inr (cs, offset') \<Rightarrow>
                 Inr \<lparr>positionsArray = ps, colorsArray = Some cs, numPoints = n\<rparr>)
          else Inr \<lparr>positionsArray = ps, colorsArray = None, numPoints = n\<rparr>)))"

text \<open>What the header of a buffer of at least 5 bytes declares.\<close>

definition header_points :: "byte list \<Rightarrow> nat" where
  "header_points dv = le32 (take 4 dv)"

definition header_colors :: "byte list \<Rightarrow> bool" where
  "header_colors dv = (dv ! 4 \<noteq> 0)"

definition required_length :: "byte list \<Rightarrow> nat" where
  "required_length dv =
     5 + 12 * header_points dv + (if header_colors dv then 3 * header_points dv else 0)"

text \<open>The positions and the colour bytes as they lie in the buffer, after the header.\<close>

definition wire_positions :: "byte list \<Rightarrow> f32 list" where
  "wire_positions dv =
     map (\<lambda>i. word_of_nat (le32 (take 4 (drop (5 + 4 * i) dv)))) [0..<header_points dv * 3]"

definition wire_colors :: "byte list \<Rightarrow> byte list" where
  "wire_colors dv = take (header_points dv * 3) (drop (5 + 12 * header_points dv) dv)"

section \<open>Frame codec of the worker (pointCloudWorker.js)\<close>

text \<open>
  The worker parses the same layout, but writes the colours into a
  \<^verbatim>\<open>Float32Array\<close>, divided by 255 as it reads them
  (\<^verbatim>\<open>colors[i] = colorValue / 255.0; // Normalize to [0,1]\<close>).
\<close>

record worker_frame =
  w_positions :: "f32 list"
  w_colors :: "jsnum list option"
  w_numPoints :: nat

fun read_normalized :: "byte list \<Rightarrow> nat \<Rightarrow> nat \<Rightarrow> js_error + (jsnum list \<times> nat)" where
  "read_normalized dv offset 0 = Inr ([], offset)"
| "read_normalized dv offset (Suc k) =
     (case getUint8 dv offset of
        Inl e \<Rightarrow> Inl e
      | Inr colorValue \<Rightarrow>
          (case read_normalized dv (offset + 1) k of
             Inl e \<Rightarrow> Inl e
           | Inr (vs, offset') \<Rightarrow> Inr (divide_by_255 colorValue # vs, offset')))"

definition worker_decode :: "byte list \<Rightarrow> js_error + worker_frame" where
  "worker_decode dv =
     (case getUint32 dv 0 of
        Inl e \<Rightarrow> Inl e
      | Inr n \<Rightarrow>
     (case getUint8 dv 4 of
        Inl e \<Rightarrow> Inl e
      | Inr hasColors \<Rightarrow>
     (case read_floats dv 5 (n * 3) of
        Inl e \<Rightarrow> Inl e
      | Inr (ps, offset) \<Rightarrow>
          if hasColors \<noteq> 0 then
            (case read_normalized dv offset (n * 3) of
               Inl e \<Rightarrow> Inl e
             | Inr (cs, offset') \<Rightarrow>
                 Inr \<lparr>w_positions = ps, w_colors = Some cs, w_numPoints = n\<rparr>)
          else Inr \<lparr>w_positions = ps, w_colors = None, w_numPoints = n\<rparr>)))"

section \<open>Geometry buffer: the state captured by the closures of PCV.vue\<close>

text \<open>
  A typed array is an object: \<open>buffer_id\<close> is its identity (the number of typed arrays
  allocated for the geometry before it), \<open>elems\<close> its contents. A reallocation is a new
  identity. \<open>positions\<close> and \<open>colors\<close> are \<^verbatim>\<open>undefined\<close> (\<open>None\<close>) until
  the first allocation.

  \<open>attr_position\<close> and \<open>attr_color\<close> are \<^verbatim>\<open>geometry.attributes.position/color\<close>:
  the identity of the array the attribute wraps, \<open>None\<close> when the geometry has no such
  attribute. \<open>vertexColors\<close> is \<^verbatim>\<open>material.vertexColors\<close>, \<open>drawRange\<close> the
  arguments of the last \<^verbatim>\<open>geometry.setDrawRange\<close> (\<open>None\<close> before the first),
  \<open>error\<close> the ref \<^verbatim>\<open>error.value\<close> shown by the template.
\<close>

record 'a typed_array =
  buffer_id :: nat
  elems :: "'a list"

record viewer =
  positions :: "f32 typed_array option"
  colors :: "jsnum typed_array option"
  maxPoints :: nat
  isFirstUpdate :: bool
  isProcessing :: bool
  attr_position :: "nat option"
  attr_color :: "nat option"
  vertexColors :: bool
  drawRange :: "(nat \<times> nat) option"
  error :: "string option"
  allocated :: nat

text \<open>
  The state after \<^verbatim>\<open>initThree\<close> and \<^verbatim>\<open>connectWebSocket\<close> have run without
  error: an empty geometry, a material created with \<^verbatim>\<open>vertexColors: true\<close>. The calls
  into the rendering library are taken not to throw.
\<close>

definition initial_viewer :: viewer where
  "initial_viewer =
     \<lparr>positions = None, colors = None, maxPoints = 0, isFirstUpdate = True,
      isProcessing = False, attr_position = None, attr_color = None, vertexColors = True,
      drawRange = None, error = None, allocated = 0\<rparr>"

text \<open>The body of \<^verbatim>\<open>if (maxPoints < numPoints) { ... }\<close> in \<^verbatim>\<open>updatePointCloud\<close>.\<close>

definition grow :: "viewer \<Rightarrow> frame \<Rightarrow> viewer" where
  "grow st f =
     (let n = numPoints f;
          st1 = st\<lparr>maxPoints := n,
                   positions := Some \<lparr>buffer_id = allocated st, elems = replicate (n * 3) 0\<rparr>,
                   attr_position := Some (allocated st),
                   allocated := allocated st + 1\<rparr>
      in case colorsArray f of
           Some ca \<Rightarrow>
             st1\<lparr>colors := Some \<lparr>buffer_id = allocated st1, elems = replicate (n * 3) (Num 0)\<rparr>,
                 attr_color := Some (allocated st1),
                 vertexColors := True,
                 allocated := allocated st1 + 1\<rparr>
         | None \<Rightarrow> st1\<lparr>attr_color := None, vertexColors := False\<rparr>)"

text \<open>
  \<^verbatim>\<open>positions.set(positionsArray.subarray(0, numPoints * 3));
  geometry.attributes.position.needsUpdate = true;\<close>
  A throw is returned with the state at the throw: what was written before it stays written.
  \<^verbatim>\<open>set\<close> throws a RangeError when the source is longer than the target.
\<close>

definition copy_positions :: "viewer \<Rightarrow> frame \<Rightarrow> (js_error \<times> viewer) + viewer" where
  "copy_positions st f =
     (case positions st of
        None \<Rightarrow> Inl (TypeError, st)
      | Some p \<Rightarrow>
          (let src = take (numPoints f * 3) (positionsArray f) in
           if length (elems p) < length src then Inl (RangeError, st)
           else
             (let st' = st\<lparr>positions := Some (p\<lparr>elems := src @ drop (length src) (elems p)\<rparr>)\<rparr>
              in case attr_position st' of
                   None \<Rightarrow> Inl (TypeError, st')
                 | Some a \<Rightarrow> Inr st')))"

text \<open>
  \<^verbatim>\<open>colors[i] = colorsArray[i] / 255.0\<close>: a read past the end of a typed array is
  \<^verbatim>\<open>undefined\<close> (and \<^verbatim>\<open>undefined / 255.0\<close> is NaN), a write past the end is
  ignored.
\<close>

definition normalized :: "byte list \<Rightarrow> nat \<Rightarrow> jsnum" where
  "normalized ca i = (if i < length ca then divide_by_255 (ca ! i) else NaN)"

definition store :: "'a list \<Rightarrow> nat \<Rightarrow> 'a \<Rightarrow> 'a list" where
  "store xs i v = (if i < length xs then xs[i := v] else xs)"

text \<open>
  \<^verbatim>\<open>for (let i = 0; i < numPoints * 3; i++) { colors[i] = colorsArray[i] / 255.0; }\<close>
  from index \<open>i\<close>, with \<open>k\<close> iterations left.
\<close>

fun normalize_loop :: "byte list \<Rightarrow> nat \<Rightarrow> nat \<Rightarrow> jsnum list \<Rightarrow> jsnum list" where
  "normalize_loop ca i 0 cs = cs"
| "normalize_loop ca i (Suc k) cs = normalize_loop ca (Suc i) k (store cs i (normalized ca i))"

text \<open>
  \<^verbatim>\<open>if (colorsArray) { for ...; geometry.attributes.color.needsUpdate = true; }\<close>
  With \<^verbatim>\<open>colors\<close> undefined the first iteration throws a TypeError; with the attribute
  missing the assignment after the loop does.
\<close>

definition copy_colors :: "viewer \<Rightarrow> frame \<Rightarrow> (js_error \<times> viewer) + viewer" where
  "copy_colors st f =
     (case colorsArray f of
        None \<Rightarrow> Inr st
      | Some ca \<Rightarrow>
          (case colors st of
             None \<Rightarrow>
               if 0 < numPoints f * 3 then Inl (TypeError, st)
               else (case attr_color st of None \<Rightarrow> Inl (TypeError, st) | Some a \<Rightarrow> Inr st)
           | Some c \<Rightarrow>
               (let st' = st\<lparr>colors :=
                              Some (c\<lparr>elems := normalize_loop ca 0 (numPoints f * 3) (elems c)\<rparr>)\<rparr>
                in case attr_color st' of
                     None \<Rightarrow> Inl (TypeError, st')
                   | Some a \<Rightarrow> Inr st')))"

text \<open>
  \<^verbatim>\<open>geometry.setDrawRange(0, numPoints); geometry.computeBoundingSphere();
  if (isFirstUpdate) { isFirstUpdate = false; fitCameraToObject(pointCloud, 1.5); }\<close>
\<close>

definition finish_update :: "viewer \<Rightarrow> frame \<Rightarrow> viewer" where
  "finish_update st f = st\<lparr>drawRange := Some (0, numPoints f), isFirstUpdate := False\<rparr>"

text \<open>The \<^verbatim>\<open>try\<close> block of \<^verbatim>\<open>updatePointCloud\<close>.\<close>

definition try_update :: "viewer \<Rightarrow> frame \<Rightarrow> (js_error \<times> viewer) + viewer" where
  "try_update st f =
     (let st1 = (if maxPoints st < numPoints f then grow st f else st) in
      case copy_positions st1 f of
        Inl x \<Rightarrow> Inl x
      | Inr st2 \<Rightarrow>
          (case copy_colors st2 f of
             Inl x \<Rightarrow> Inl x
           | Inr st3 \<Rightarrow> Inr (finish_update st3 f)))"

text \<open>
  \<^verbatim>\<open>updatePointCloud\<close>: the \<^verbatim>\<open>catch (e)\<close> sets the ref
  \<^verbatim>\<open>error.value = 'Error updating point cloud'\<close>, the \<^verbatim>\<open>finally\<close> resets
  \<^verbatim>\<open>isProcessing\<close>.
\<close>

definition updatePointCloud :: "viewer \<Rightarrow> frame \<Rightarrow> viewer" where
  "updatePointCloud st f =
     (case try_update st f of
        Inl (e, st') \<Rightarrow> st'\<lparr>error := Some ''Error updating point cloud'', isProcessing := False\<rparr>
      | Inr st' \<Rightarrow> st'\<lparr>isProcessing := False\<rparr>)"

definition ingest_all :: "viewer \<Rightarrow> frame list \<Rightarrow> viewer" where
  "ingest_all st fs = foldl updatePointCloud st fs"

text \<open>
  A well-formed frame: the arrays have \<^verbatim>\<open>numPoints * 3\<close> elements, as those built by
  \<open>decode\<close> do.
\<close>

definition well_formed :: "frame \<Rightarrow> bool" where
  "well_formed f =
     (length (positionsArray f) = numPoints f * 3 \<and>
      (case colorsArray f of None \<Rightarrow> True | Some ca \<Rightarrow> length ca = numPoints f * 3))"

section \<open>Stream admission: \<^verbatim>\<open>handleWebSocketMessage\<close> and \<^verbatim>\<open>parsePointCloudData\<close>\<close>

text \<open>
  What a \<^verbatim>\<open>throw\<close> carries: an Error object, or a primitive string. The decompressor
  (\<^verbatim>\<open>pako.inflate\<close>) is a parameter: \<open>Inr\<close> the inflated bytes, which are the
  buffer the DataView reads, \<open>Inl\<close> what it throws on a payload it rejects (pako throws
  its message, a string: \<^verbatim>\<open>throw inflator.msg || msg[inflator.err]\<close>).

  In \<^verbatim>\<open>parsePointCloudData\<close> the handler is
  \<^verbatim>\<open>catch (error) { console.error(...); error.value = '...'; isProcessing = false; }\<close>:
  its parameter shadows the ref \<^verbatim>\<open>error\<close>, so the assignment is to the caught value.
  On an Error object it adds a property; on a primitive, in the strict code of a module, it
  throws a TypeError, which leaves the handler before the flag is reset. The result is the
  exception that leaves the function, if any, and the state.
\<close>

datatype js_thrown = Thrown_Error js_error | Thrown_String string

definition catch_parse :: "js_thrown \<Rightarrow> viewer \<Rightarrow> js_error option \<times> viewer" where
  "catch_parse t st =
     (case t of
        Thrown_Error e \<Rightarrow> (None, st\<lparr>isProcessing := False\<rparr>)
      | Thrown_String s \<Rightarrow> (Some TypeError, st))"

definition parsePointCloudData ::
  "(byte list \<Rightarrow> js_thrown + byte list) \<Rightarrow> viewer \<Rightarrow> byte list \<Rightarrow> js_error option \<times> viewer" where
  "parsePointCloudData inflate st data =
     (case inflate data of
        Inl t \<Rightarrow> catch_parse t st
      | Inr dv \<Rightarrow>
          (case decode dv of
             Inl e \<Rightarrow> catch_parse (Thrown_Error e) st
           | Inr f \<Rightarrow> (None, updatePointCloud st f)))"

definition handleWebSocketMessage ::
  "(byte list \<Rightarrow> js_thrown + byte list) \<Rightarrow> viewer \<Rightarrow> byte list \<Rightarrow> js_error option \<times> viewer" where
  "handleWebSocketMessage inflate st data =
     (if isProcessing st then (None, st)
      else parsePointCloudData inflate (st\<lparr>isProcessing := True\<rparr>) data)"

section \<open>Frame sequencer: the sort of \<^verbatim>\<open>processH5File\<close> (PointCloudViewer.vue)\<close>

text \<open>
  \<^verbatim>\<open>a.match(/\d+/)\<close> is the first maximal run of the digits 0 to 9, or
  \<^verbatim>\<open>null\<close>; \<^verbatim>\<open>parseInt\<close> of a run of digits is its decimal value (exactly, in a
  JavaScript number, below \<open>2 ^ 53\<close>).
\<close>

definition is_digit :: "char \<Rightarrow> bool" where
  "is_digit c = (48 \<le> (of_char c :: nat) \<and> (of_char c :: nat) \<le> 57)"

definition match_digits :: "string \<Rightarrow> string option" where
  "match_digits s =
     (case dropWhile (\<lambda>c. \<not> is_digit c) s of
        [] \<Rightarrow> None
      | c # cs \<Rightarrow> Some (takeWhile is_digit (c # cs)))"

definition parseInt :: "string \<Rightarrow> nat" where
  "parseInt ds = foldl (\<lambda>acc c. 10 * acc + (of_char c - 48)) 0 ds"

text \<open>
  The comparator
  \<^verbatim>\<open>(a, b) => { const aNum = parseInt(a.match(/\d+/)[0]); const bNum = ...; return aNum - bNum; }\<close>:
  indexing \<^verbatim>\<open>null\<close> throws a TypeError.
\<close>

definition compare_names :: "string \<Rightarrow> string \<Rightarrow> js_error + int" where
  "compare_names a b =
     (case match_digits a of
        None \<Rightarrow> Inl TypeError
      | Some da \<Rightarrow>
          (case match_digits b of
             None \<Rightarrow> Inl TypeError
           | Some db \<Rightarrow> Inr (int (parseInt da) - int (parseInt db))))"

text \<open>
  \<^verbatim>\<open>Array.prototype.sort\<close> with a comparator: the language fixes that the sort is
  stable and that an exception of the comparator leaves the sort; which pairs are compared is
  left to the engine. The model is the stable insertion sort: each element after the first is
  inserted into the sorted prefix, behind every element that does not compare greater. An array
  of fewer than two elements has no pair to compare.
\<close>

fun insert_sorted :: "('a \<Rightarrow> 'a \<Rightarrow> js_error + int) \<Rightarrow> 'a \<Rightarrow> 'a list \<Rightarrow> js_error + 'a list" where
  "insert_sorted cmp x [] = Inr [x]"
| "insert_sorted cmp x (y # ys) =
     (case cmp y x of
        Inl e \<Rightarrow> Inl e
      | Inr d \<Rightarrow>
          if 0 < d then Inr (x # y # ys)
          else (case insert_sorted cmp x ys of
                  Inl e \<Rightarrow> Inl e
                | Inr zs \<Rightarrow> Inr (y # zs)))"

fun sort_from :: "('a \<Rightarrow> 'a \<Rightarrow> js_error + int) \<Rightarrow> 'a list \<Rightarrow> 'a list \<Rightarrow> js_error + 'a list" where
  "sort_from cmp acc [] = Inr acc"
| "sort_from cmp acc (x # xs) =
     (case insert_sorted cmp x acc of
        Inl e \<Rightarrow> Inl e
      | Inr acc' \<Rightarrow> sort_from cmp acc' xs)"

definition array_sort :: "('a \<Rightarrow> 'a \<Rightarrow> js_error + int) \<Rightarrow> 'a list \<Rightarrow> js_error + 'a list" where
  "array_sort cmp xs = sort_from cmp [] xs"

definition sort_frame_names :: "string list \<Rightarrow> js_error + string list" where
  "sort_frame_names frame_names = array_sort compare_names frame_names"

text \<open>The number a name is ordered by, for a name that contains a digit.\<close>

definition frame_number :: "string \<Rightarrow> nat" where
  "frame_number a = (case match_digits a of None \<Rightarrow> 0 | Some ds \<Rightarrow> parseInt ds)"

section \<open>Vocabulary of the properties\<close>

text \<open>The state in which a block ends, whether it ends by a throw or not.\<close>

definition state_of :: "(js_error \<times> viewer) + viewer \<Rightarrow> viewer" where
  "state_of r = (case r of Inl (e, st) \<Rightarrow> st | Inr st \<Rightarrow> st)"

text \<open>
  The pure stable insertion sort by a key, and the names the comparator accepts.
\<close>

fun insert_by :: "('a \<Rightarrow> nat) \<Rightarrow> 'a \<Rightarrow> 'a list \<Rightarrow> 'a list" where
  "insert_by key x [] = [x]"
| "insert_by key x (y # ys) = (if key x < key y then x # y # ys else y # insert_by key x ys)"

definition has_digit :: "string \<Rightarrow> bool" where
  "has_digit a = (match_digits a \<noteq> None)"

definition insertion_sort :: "('a \<Rightarrow> nat) \<Rightarrow> 'a list \<Rightarrow> 'a list \<Rightarrow> 'a list" where
  "insertion_sort key acc xs = foldl (\<lambda>acc x. insert_by key x acc) acc xs"

text \<open>
  The invariant of the storage: the position array exists exactly once the capacity is
  positive, has \<open>maxPoints * 3\<close> elements and is the array the position attribute wraps; a
  bound colour attribute wraps the colour array, which then has \<open>maxPoints * 3\<close> elements.
  \<open>thrown_by\<close> is the exception a block ends with, if any.
\<close>

definition consistent :: "viewer \<Rightarrow> bool" where
  "consistent st =
     ((case positions st of
         None \<Rightarrow> maxPoints st = 0 \<and> attr_position st = None
       | Some p \<Rightarrow> 0 < maxPoints st \<and> length (elems p) = maxPoints st * 3 \<and>
                   attr_position st = Some (buffer_id p)) \<and>
      (case attr_color st of
         None \<Rightarrow> True
       | Some a \<Rightarrow>
           (case colors st of
              None \<Rightarrow> False
            | Some c \<Rightarrow> length (elems c) = maxPoints st * 3 \<and> buffer_id c = a)))"

definition thrown_by :: "(js_error \<times> viewer) + viewer \<Rightarrow> js_error option" where
  "thrown_by r = (case r of Inl (e, st) \<Rightarrow> Some e | Inr st \<Rightarrow> None)"

section \<open>Sample inputs\<close>

text \<open>
  A frame of two points with colours, as it lies on the wire after inflation: the positions
  are the singles 1, 2, 3 and 4, 5, 6.
\<close>

definition two_points :: "byte list" where
  "two_points = [2, 0, 0, 0, 1,
                 0, 0, 128, 63,  0, 0, 0, 64,  0, 0, 64, 64,
                 0, 0, 128, 64,  0, 0, 160, 64,  0, 0, 192, 64,
                 255, 0, 51,  10, 20, 30]"

text \<open>
  Decoded frames: two points and one point, each with and without colours, and the frame
  of no points.
\<close>

definition colored2 :: frame where
  "colored2 = \<lparr>positionsArray = [0x3F800000, 0x40000000, 0x40400000, 0x40800000, 0x40A00000, 0x40C00000],
                colorsArray = Some [255, 0, 51, 10, 20, 30], numPoints = 2\<rparr>"

definition plain1 :: frame where
  "plain1 = \<lparr>positionsArray = [0x40E00000, 0x41000000, 0x41100000], colorsArray = None, numPoints = 1\<rparr>"

definition plain2 :: frame where
  "plain2 = \<lparr>positionsArray = [0x3F800000, 0x40000000, 0x40400000, 0x40800000, 0x40A00000, 0x40C00000],
              colorsArray = None, numPoints = 2\<rparr>"

definition colored1 :: frame where
  "colored1 = \<lparr>positionsArray = [0x40E00000, 0x41000000, 0x41100000],
                colorsArray = Some [255, 0, 51], numPoints = 1\<rparr>"

definition empty_frame :: frame where
  "empty_frame = \<lparr>positionsArray = [], colorsArray = None, numPoints = 0\<rparr>"

text \<open>The frame names of the ordering scenario.\<close>

definition example_names :: "string list" where
  "example_names = [''frame10'', ''frame2'', ''frame1'']"

text \<open>
  A stand-in for the decompressor: it rejects the two bytes FF FF the way pako rejects a
  bad zlib header, by throwing the message string, and returns any other payload as it is.
\<close>

definition sample_inflate :: "byte list \<Rightarrow> js_thrown + byte list" where
  "sample_inflate data =
     (if data = [255, 255] then Inl (Thrown_String ''incorrect header check'') else Inr data)"

section \<open>Rounding: properties\<close>

lemma log2_floor_bounds:
  assumes "0 < x"
  shows "2 powi (log2_floor x) \<le> x \<and> x < 2 powi (log2_floor x + 1)"
proof -
  obtain a b where q: "quotient_of x = (a, b)" by (cases "quotient_of x")
  then have b: "0 < b" and x: "x = of_int a / of_int b"
    using quotient_of_denom_pos [OF q] quotient_of_div [OF q] by simp_all
  with assms have a: "0 < a" by (simp add: zero_less_divide_iff)
  let ?la = "bitlen a" and ?lb = "bitlen b"
  have la: "1 \<le> ?la" and lb: "1 \<le> ?lb"
    using a b bitlen_eq_zero_iff [of a] bitlen_eq_zero_iff [of b] bitlen_nonneg [of a]
      bitlen_nonneg [of b] by linarith+
  have pw: "(2::rat) powi k = of_int (2 ^ nat k)" if "0 \<le> k" for k
    using that by (simp add: power_int_def)
  have a_lo: "(2::rat) powi (?la - 1) \<le> of_int a"
    using bitlen_bounds [OF a] la by (simp only: pw of_int_le_iff)
  have a_hi: "of_int a < (2::rat) powi ?la"
    using bitlen_bounds [OF a] la by (simp only: pw of_int_less_iff)
  have b_lo: "(2::rat) powi (?lb - 1) \<le> of_int b"
    using bitlen_bounds [OF b] lb by (simp only: pw of_int_le_iff)
  have b_hi: "of_int b < (2::rat) powi ?lb"
    using bitlen_bounds [OF b] lb by (simp only: pw of_int_less_iff)
  have lower: "(2::rat) powi (?la - ?lb - 1) < x"
  proof -
    have "(2::rat) powi (?la - ?lb - 1) = 2 powi (?la - 1) / 2 powi ?lb"
      by (simp add: power_int_diff)
    also have "\<dots> < of_int a / of_int b"
      using a_lo b_hi a b by (intro frac_less2) simp_all
    finally show ?thesis by (simp add: x)
  qed
  have upper: "x < (2::rat) powi (?la - ?lb + 1)"
  proof -
    have "of_int a / of_int b < (2::rat) powi ?la / 2 powi (?lb - 1)"
      using a_hi b_lo a b by (intro frac_less) simp_all
    also have "\<dots> = 2 powi (?la - (?lb - 1))"
      by (subst power_int_diff) simp_all
    also have "?la - (?lb - 1) = ?la - ?lb + 1" by simp
    finally show ?thesis by (simp add: x)
  qed
  show ?thesis
  proof (cases "(2::rat) powi (?la - ?lb) \<le> x")
    case True
    then have "log2_floor x = ?la - ?lb" by (simp add: log2_floor_def q)
    with True upper show ?thesis by simp
  next
    case False
    then have "log2_floor x = ?la - ?lb - 1" by (simp add: log2_floor_def q)
    with False lower show ?thesis by simp
  qed
qed

lemma round_to_bits_nearest:
  assumes "0 < x"
  shows "\<exists>m. round_to_bits p x = of_int m * 2 powi (log2_floor x - int p + 1) \<and>
             \<bar>round_to_bits p x - x\<bar> \<le> 2 powi (log2_floor x - int p + 1) / 2"
proof -
  define ulp :: rat where "ulp = 2 powi (log2_floor x - int p + 1)"
  define q where "q = x / ulp"
  define n where "n = \<lfloor>q\<rfloor>"
  define r where "r = q - of_int n"
  define m where "m = (if r < 1 / 2 then n else if 1 / 2 < r then n + 1
                       else if even n then n else n + 1)"
  have u: "0 < ulp" by (simp add: ulp_def)
  have res: "round_to_bits p x = of_int m * ulp"
    using assms by (simp add: round_to_bits_def Let_def ulp_def q_def n_def r_def m_def)
  have r01: "0 \<le> r" "r < 1" unfolding r_def n_def by linarith+
  have q: "q = of_int n + r" by (simp add: r_def)
  have near: "\<bar>of_int m - q\<bar> \<le> 1 / 2"
    unfolding q m_def using r01
    by (cases "r < 1 / 2"; cases "1 / 2 < r"; cases "even n") simp_all
  have x: "x = q * ulp" using u by (simp add: q_def)
  have "\<bar>of_int m * ulp - x\<bar> = \<bar>of_int m - q\<bar> * ulp"
    unfolding x using u by (simp add: abs_mult left_diff_distrib [symmetric])
  also have "\<dots> \<le> 1 / 2 * ulp"
    using near u by (intro mult_right_mono) simp_all
  finally have "\<bar>round_to_bits p x - x\<bar> \<le> ulp / 2" by (simp add: res)
  with res show ?thesis unfolding ulp_def by blast
qed

lemma divide_by_255_samples:
  "divide_by_255 255 = Num 1"
  "divide_by_255 0 = Num 0"
  "divide_by_255 51 = Num (13421773 / 67108864)"
  "divide_by_255 10 = Num (10526881 / 268435456)"
  "divide_by_255 20 = Num (10526881 / 134217728)"
  "divide_by_255 30 = Num (15790321 / 134217728)"
  by code_simp+

section \<open>Frame codec: properties\<close>

lemma read_floats_ok:
  "offset + 4 * k \<le> length dv \<Longrightarrow>
   read_floats dv offset k =
     Inr (map (\<lambda>i. word_of_nat (le32 (take 4 (drop (offset + 4 * i) dv)))) [0..<k], offset + 4 * k)"
proof (induction k arbitrary: offset)
  case 0
  then show ?case by simp
next
  case (Suc k)
  have "offset + 4 + 4 * k \<le> length dv" using Suc.prems by simp
  from Suc.IH [OF this] Suc.prems show ?case
    by (simp add: getFloat32_def upt_rec [of 0 "Suc k"] map_Suc_upt [symmetric] add.assoc del: upt_Suc)
qed

lemma read_floats_fail:
  "length dv < offset + 4 * k \<Longrightarrow> offset \<le> length dv \<Longrightarrow>
   read_floats dv offset k = Inl RangeError"
proof (induction k arbitrary: offset)
  case 0
  then show ?case by simp
next
  case (Suc k)
  show ?case
  proof (cases "offset + 4 \<le> length dv")
    case True
    have "length dv < offset + 4 + 4 * k" using Suc.prems by simp
    from Suc.IH [OF this True] True show ?thesis by (simp add: getFloat32_def)
  next
    case False
    then show ?thesis by (simp add: getFloat32_def)
  qed
qed

lemma read_bytes_ok:
  "offset + k \<le> length dv \<Longrightarrow> read_bytes dv offset k = Inr (take k (drop offset dv), offset + k)"
proof (induction k arbitrary: offset)
  case 0
  then show ?case by simp
next
  case (Suc k)
  have "offset + 1 + k \<le> length dv" using Suc.prems by simp
  from Suc.IH [OF this] Suc.prems show ?case
    by (simp add: getUint8_def take_Suc_conv_app_nth Cons_nth_drop_Suc [symmetric] add.commute)
qed

lemma read_bytes_fail:
  "length dv < offset + k \<Longrightarrow> offset \<le> length dv \<Longrightarrow>
   read_bytes dv offset k = Inl RangeError"
proof (induction k arbitrary: offset)
  case 0
  then show ?case by simp
next
  case (Suc k)
  show ?case
  proof (cases "offset + 1 \<le> length dv")
    case True
    have "length dv < offset + 1 + k" using Suc.prems by simp
    from Suc.IH [OF this True] True show ?thesis by (simp add: getUint8_def)
  next
    case False
    then show ?thesis by (simp add: getUint8_def)
  qed
qed

lemma read_normalized_ok:
  "offset + k \<le> length dv \<Longrightarrow>
   read_normalized dv offset k =
     Inr (map divide_by_255 (take k (drop offset dv)), offset + k)"
proof (induction k arbitrary: offset)
  case 0
  then show ?case by simp
next
  case (Suc k)
  have "offset + 1 + k \<le> length dv" using Suc.prems by simp
  from Suc.IH [OF this] Suc.prems show ?case
    by (simp add: getUint8_def take_Suc_conv_app_nth Cons_nth_drop_Suc [symmetric] add.commute)
qed

lemma read_normalized_fail:
  "length dv < offset + k \<Longrightarrow> offset \<le> length dv \<Longrightarrow>
   read_normalized dv offset k = Inl RangeError"
proof (induction k arbitrary: offset)
  case 0
  then show ?case by simp
next
  case (Suc k)
  show ?case
  proof (cases "offset + 1 \<le> length dv")
    case True
    have "length dv < offset + 1 + k" using Suc.prems by simp
    from Suc.IH [OF this True] True show ?thesis by (simp add: getUint8_def)
  next
    case False
    then show ?thesis by (simp add: getUint8_def)
  qed
qed

lemma decode_short:
  assumes "length dv < required_length dv"
  shows "decode dv = Inl RangeError"
proof (cases "5 \<le> length dv")
  case False
  then show ?thesis
    by (auto simp: decode_def getUint32_def getUint8_def)
next
  case five: True
  show ?thesis
  proof (cases "5 + 4 * (header_points dv * 3) \<le> length dv")
    case False
    then have "read_floats dv 5 (header_points dv * 3) = Inl RangeError"
      using five by (intro read_floats_fail) simp_all
    with five show ?thesis
      by (simp add: decode_def getUint32_def getUint8_def header_points_def)
  next
    case True
    with assms have hc: "header_colors dv"
      by (simp add: required_length_def split: if_splits)
    have "read_bytes dv (5 + 4 * (header_points dv * 3)) (header_points dv * 3) = Inl RangeError"
      using assms hc True by (intro read_bytes_fail) (simp_all add: required_length_def)
    with five True hc show ?thesis
      by (simp add: decode_def getUint32_def getUint8_def header_points_def header_colors_def
          read_floats_ok)
  qed
qed

lemma decode_long:
  "required_length dv \<le> length dv \<Longrightarrow>
   decode dv = Inr \<lparr>positionsArray = wire_positions dv,
                    colorsArray = (if header_colors dv then Some (wire_colors dv) else None),
                    numPoints = header_points dv\<rparr>"
  by (auto simp: decode_def required_length_def header_points_def header_colors_def getUint32_def
      getUint8_def read_floats_ok read_bytes_ok wire_positions_def wire_colors_def split: if_splits)

lemma worker_decode_short:
  assumes "length dv < required_length dv"
  shows "worker_decode dv = Inl RangeError"
proof (cases "5 \<le> length dv")
  case False
  then show ?thesis
    by (auto simp: worker_decode_def getUint32_def getUint8_def)
next
  case five: True
  show ?thesis
  proof (cases "5 + 4 * (header_points dv * 3) \<le> length dv")
    case False
    then have "read_floats dv 5 (header_points dv * 3) = Inl RangeError"
      using five by (intro read_floats_fail) simp_all
    with five show ?thesis
      by (simp add: worker_decode_def getUint32_def getUint8_def header_points_def)
  next
    case True
    with assms have hc: "header_colors dv"
      by (simp add: required_length_def split: if_splits)
    have "read_normalized dv (5 + 4 * (header_points dv * 3)) (header_points dv * 3) = Inl RangeError"
      using assms hc True by (intro read_normalized_fail) (simp_all add: required_length_def)
    with five True hc show ?thesis
      by (simp add: worker_decode_def getUint32_def getUint8_def header_points_def header_colors_def
          read_floats_ok)
  qed
qed

lemma worker_decode_long:
  "required_length dv \<le> length dv \<Longrightarrow>
   worker_decode dv =
     Inr \<lparr>w_positions = wire_positions dv,
          w_colors = (if header_colors dv
                      then Some (map divide_by_255 (wire_colors dv)) else None),
          w_numPoints = header_points dv\<rparr>"
  by (auto simp: worker_decode_def required_length_def header_points_def header_colors_def
      getUint32_def getUint8_def read_floats_ok read_normalized_ok wire_positions_def
      wire_colors_def split: if_splits)

lemma length_wire_positions: "length (wire_positions dv) = header_points dv * 3"
  by (simp add: wire_positions_def)

lemma length_wire_colors:
  "required_length dv \<le> length dv \<Longrightarrow> header_colors dv \<Longrightarrow>
   length (wire_colors dv) = header_points dv * 3"
  by (simp add: wire_colors_def required_length_def)

lemma le32_simp: "le32 [a, b, c, d] = unat a + 256 * unat b + 65536 * unat c + 16777216 * unat d"
  by (simp add: le32_def)

text \<open>
  C2. A buffer decodes exactly when it holds at least
  \<open>5 + 12 * pointCount + (if hasColors then 3 * pointCount else 0)\<close> bytes, for the count
  and the flag its header declares: a buffer that long decodes to the full frame (all
  \<open>pointCount * 3\<close> positions and, with the flag set, all \<open>pointCount * 3\<close> colour
  bytes), and any shorter buffer makes the decoder throw (the RangeError of the DataView read
  that leaves the buffer) rather than return a shortened frame. The decoder of the worker
  accepts and rejects the same buffers.
\<close>

theorem decode_checks_length:
  "(required_length dv \<le> length dv \<longrightarrow>
      decode dv = Inr \<lparr>positionsArray = wire_positions dv,
                       colorsArray = (if header_colors dv then Some (wire_colors dv) else None),
                       numPoints = header_points dv\<rparr> \<and>
      length (wire_positions dv) = header_points dv * 3 \<and>
      (header_colors dv \<longrightarrow> length (wire_colors dv) = header_points dv * 3) \<and>
      (\<exists>wf. worker_decode dv = Inr wf \<and> w_numPoints wf = header_points dv \<and>
            length (w_positions wf) = header_points dv * 3)) \<and>
   (length dv < required_length dv \<longrightarrow>
      decode dv = Inl RangeError \<and> worker_decode dv = Inl RangeError)"
  by (simp add: decode_long decode_short worker_decode_long worker_decode_short
      length_wire_positions length_wire_colors)

theorem decode_checks_length_witness:
  "required_length two_points \<le> length two_points \<and>
   decode two_points =
     Inr \<lparr>positionsArray = [0x3F800000, 0x40000000, 0x40400000, 0x40800000, 0x40A00000, 0x40C00000],
          colorsArray = Some [255, 0, 51, 10, 20, 30], numPoints = 2\<rparr> \<and>
   length (butlast two_points) < required_length (butlast two_points) \<and>
   decode (butlast two_points) = Inl RangeError"
  using decode_checks_length [of two_points] decode_checks_length [of "butlast two_points"]
  by (simp add: two_points_def required_length_def header_points_def header_colors_def
      wire_positions_def wire_colors_def le32_simp upt_rec)

section \<open>Geometry buffer: properties\<close>

lemma state_of_simps [simp]: "state_of (Inl (e, st)) = st" "state_of (Inr st) = st"
  by (simp_all add: state_of_def)

lemma length_normalize_loop [simp]: "length (normalize_loop ca i k cs) = length cs"
  by (induction k arbitrary: i cs) (simp_all add: store_def)

lemma copy_positions_others:
  "maxPoints (state_of (copy_positions st f)) = maxPoints st"
  "allocated (state_of (copy_positions st f)) = allocated st"
  "colors (state_of (copy_positions st f)) = colors st"
  "attr_position (state_of (copy_positions st f)) = attr_position st"
  "attr_color (state_of (copy_positions st f)) = attr_color st"
  "vertexColors (state_of (copy_positions st f)) = vertexColors st"
  "drawRange (state_of (copy_positions st f)) = drawRange st"
  "error (state_of (copy_positions st f)) = error st"
  by (simp_all add: copy_positions_def Let_def split: option.splits)

lemma copy_positions_storage:
  "map_option buffer_id (positions (state_of (copy_positions st f))) = map_option buffer_id (positions st)"
  "map_option (\<lambda>p. length (elems p)) (positions (state_of (copy_positions st f))) =
   map_option (\<lambda>p. length (elems p)) (positions st)"
  by (auto simp: copy_positions_def Let_def split: option.splits)

lemma copy_colors_others:
  "maxPoints (state_of (copy_colors st f)) = maxPoints st"
  "allocated (state_of (copy_colors st f)) = allocated st"
  "positions (state_of (copy_colors st f)) = positions st"
  "attr_position (state_of (copy_colors st f)) = attr_position st"
  "attr_color (state_of (copy_colors st f)) = attr_color st"
  "vertexColors (state_of (copy_colors st f)) = vertexColors st"
  "drawRange (state_of (copy_colors st f)) = drawRange st"
  "error (state_of (copy_colors st f)) = error st"
  by (simp_all add: copy_colors_def Let_def split: option.splits)

lemma copy_colors_storage:
  "map_option buffer_id (colors (state_of (copy_colors st f))) = map_option buffer_id (colors st)"
  "map_option (\<lambda>c. length (elems c)) (colors (state_of (copy_colors st f))) =
   map_option (\<lambda>c. length (elems c)) (colors st)"
  by (simp_all add: copy_colors_def Let_def split: option.splits)


lemma try_update_field:
  assumes "\<And>s. g (state_of (copy_positions s f)) = g s"
    and "\<And>s. g (state_of (copy_colors s f)) = g s"
    and "\<And>s. g (finish_update s f) = g s"
  shows "g (state_of (try_update st f)) = g (if maxPoints st < numPoints f then grow st f else st)"
proof -
  let ?st1 = "if maxPoints st < numPoints f then grow st f else st"
  show ?thesis
  proof (cases "copy_positions ?st1 f")
    case (Inl x)
    then have "state_of (try_update st f) = state_of (copy_positions ?st1 f)"
      by (simp add: try_update_def)
    then show ?thesis using assms(1) [of ?st1] by simp
  next
    case p: (Inr st2)
    then have st2: "g st2 = g ?st1" using assms(1) [of ?st1] by simp
    show ?thesis
    proof (cases "copy_colors st2 f")
      case (Inl x)
      with p have "state_of (try_update st f) = state_of (copy_colors st2 f)"
        by (simp add: try_update_def)
      then show ?thesis using assms(2) [of st2] st2 by simp
    next
      case (Inr st3)
      with p have "state_of (try_update st f) = finish_update st3 f"
        by (simp add: try_update_def)
      moreover have "g st3 = g st2" using assms(2) [of st2] Inr by simp
      ultimately show ?thesis using assms(3) [of st3] st2 by simp
    qed
  qed
qed

lemma updatePointCloud_field:
  assumes "\<And>s e b. g (s\<lparr>error := e, isProcessing := b\<rparr>) = g s"
    and "\<And>s b. g (s\<lparr>isProcessing := b\<rparr>) = g s"
  shows "g (updatePointCloud st f) = g (state_of (try_update st f))"
  using assms by (auto simp: updatePointCloud_def split: sum.splits)

lemma maxPoints_update:
  "maxPoints (updatePointCloud st f) = max (maxPoints st) (numPoints f)"
proof -
  have "maxPoints (updatePointCloud st f) = maxPoints (state_of (try_update st f))"
    by (rule updatePointCloud_field) simp_all
  also have "\<dots> = maxPoints (if maxPoints st < numPoints f then grow st f else st)"
    by (rule try_update_field) (simp_all add: copy_positions_others copy_colors_others finish_update_def)
  also have "\<dots> = max (maxPoints st) (numPoints f)"
    by (simp add: grow_def Let_def max_def split: option.splits)
  finally show ?thesis .
qed

lemma allocated_update:
  "allocated (updatePointCloud st f) =
     allocated (if maxPoints st < numPoints f then grow st f else st)"
proof -
  have "allocated (updatePointCloud st f) = allocated (state_of (try_update st f))"
    by (rule updatePointCloud_field) simp_all
  also have "\<dots> = allocated (if maxPoints st < numPoints f then grow st f else st)"
    by (rule try_update_field) (simp_all add: copy_positions_others copy_colors_others finish_update_def)
  finally show ?thesis .
qed

lemma positions_id_update:
  "map_option buffer_id (positions (updatePointCloud st f)) =
     map_option buffer_id (positions (if maxPoints st < numPoints f then grow st f else st))"
proof -
  have "map_option buffer_id (positions (updatePointCloud st f)) =
        map_option buffer_id (positions (state_of (try_update st f)))"
    by (rule updatePointCloud_field [where g = "\<lambda>s. map_option buffer_id (positions s)"]) simp_all
  also have "\<dots> = map_option buffer_id (positions (if maxPoints st < numPoints f then grow st f else st))"
    by (rule try_update_field [where g = "\<lambda>s. map_option buffer_id (positions s)"])
      (simp_all add: copy_positions_storage copy_colors_others finish_update_def)
  finally show ?thesis .
qed

lemma positions_length_update:
  "map_option (\<lambda>p. length (elems p)) (positions (updatePointCloud st f)) =
     map_option (\<lambda>p. length (elems p)) (positions (if maxPoints st < numPoints f then grow st f else st))"
proof -
  have "map_option (\<lambda>p. length (elems p)) (positions (updatePointCloud st f)) =
        map_option (\<lambda>p. length (elems p)) (positions (state_of (try_update st f)))"
    by (rule updatePointCloud_field [where g = "\<lambda>s. map_option (\<lambda>p. length (elems p)) (positions s)"]) simp_all
  also have "\<dots> = map_option (\<lambda>p. length (elems p)) (positions (if maxPoints st < numPoints f then grow st f else st))"
    by (rule try_update_field [where g = "\<lambda>s. map_option (\<lambda>p. length (elems p)) (positions s)"])
      (simp_all add: copy_positions_storage copy_colors_others finish_update_def)
  finally show ?thesis .
qed

lemma colors_id_update:
  "map_option buffer_id (colors (updatePointCloud st f)) =
     map_option buffer_id (colors (if maxPoints st < numPoints f then grow st f else st))"
proof -
  have "map_option buffer_id (colors (updatePointCloud st f)) =
        map_option buffer_id (colors (state_of (try_update st f)))"
    by (rule updatePointCloud_field [where g = "\<lambda>s. map_option buffer_id (colors s)"]) simp_all
  also have "\<dots> = map_option buffer_id (colors (if maxPoints st < numPoints f then grow st f else st))"
    by (rule try_update_field [where g = "\<lambda>s. map_option buffer_id (colors s)"])
      (simp_all add: copy_positions_others copy_colors_storage finish_update_def)
  finally show ?thesis .
qed

lemma colors_length_update:
  "map_option (\<lambda>p. length (elems p)) (colors (updatePointCloud st f)) =
     map_option (\<lambda>p. length (elems p)) (colors (if maxPoints st < numPoints f then grow st f else st))"
proof -
  have "map_option (\<lambda>p. length (elems p)) (colors (updatePointCloud st f)) =
        map_option (\<lambda>p. length (elems p)) (colors (state_of (try_update st f)))"
    by (rule updatePointCloud_field [where g = "\<lambda>s. map_option (\<lambda>p. length (elems p)) (colors s)"]) simp_all
  also have "\<dots> = map_option (\<lambda>p. length (elems p)) (colors (if maxPoints st < numPoints f then grow st f else st))"
    by (rule try_update_field [where g = "\<lambda>s. map_option (\<lambda>p. length (elems p)) (colors s)"])
      (simp_all add: copy_positions_others copy_colors_storage finish_update_def)
  finally show ?thesis .
qed

lemma maxPoints_ingest_all:
  "maxPoints (ingest_all st fs) = fold max (map numPoints fs) (maxPoints st)"
  by (induction fs arbitrary: st) (simp_all add: ingest_all_def maxPoints_update max.commute)

lemma fold_max_ge: "(a::nat) \<le> fold max xs a"
  by (induction xs arbitrary: a) (auto intro: order_trans [OF max.cobounded2])

lemma ingest_colored2:
  "updatePointCloud initial_viewer colored2 =
     \<lparr>positions = Some \<lparr>buffer_id = 0,
                         elems = [0x3F800000, 0x40000000, 0x40400000, 0x40800000, 0x40A00000, 0x40C00000]\<rparr>,
      colors = Some \<lparr>buffer_id = 1,
                      elems = [Num 1, Num 0, Num (13421773 / 67108864), Num (10526881 / 268435456),
                               Num (10526881 / 134217728), Num (15790321 / 134217728)]\<rparr>,
      maxPoints = 2, isFirstUpdate = False, isProcessing = False,
      attr_position = Some 0, attr_color = Some 1, vertexColors = True,
      drawRange = Some (0, 2), error = None, allocated = 2\<rparr>"
  by code_simp

lemma ingest_colored2_plain1:
  "updatePointCloud (updatePointCloud initial_viewer colored2) plain1 =
     \<lparr>positions = Some \<lparr>buffer_id = 0,
                         elems = [0x40E00000, 0x41000000, 0x41100000, 0x40800000, 0x40A00000, 0x40C00000]\<rparr>,
      colors = Some \<lparr>buffer_id = 1,
                      elems = [Num 1, Num 0, Num (13421773 / 67108864), Num (10526881 / 268435456),
                               Num (10526881 / 134217728), Num (15790321 / 134217728)]\<rparr>,
      maxPoints = 2, isFirstUpdate = False, isProcessing = False,
      attr_position = Some 0, attr_color = Some 1, vertexColors = True,
      drawRange = Some (0, 1), error = None, allocated = 2\<rparr>"
  by code_simp


text \<open>
  C1. The capacity \<open>maxPoints\<close> tracks the high-water mark of the frame sizes. A frame with
  more points than the capacity makes \<open>updatePointCloud\<close> allocate a new position array,
  and with colours present a new colour array, of exactly \<open>numPoints * 3\<close> elements, and
  sets the capacity to \<open>numPoints\<close>. A frame with at most as many points as the capacity
  allocates nothing: capacity, the identity and the length of both arrays are as before. So the
  capacity never shrinks, and after any sequence of frames it is the largest point count seen.
\<close>

theorem capacity_is_high_water_mark:
  "(maxPoints st < numPoints f \<longrightarrow>
      maxPoints (updatePointCloud st f) = numPoints f \<and>
      allocated st < allocated (updatePointCloud st f) \<and>
      (\<exists>p. positions (updatePointCloud st f) = Some p \<and> buffer_id p = allocated st \<and>
           length (elems p) = numPoints f * 3) \<and>
      (colorsArray f \<noteq> None \<longrightarrow>
         (\<exists>c. colors (updatePointCloud st f) = Some c \<and> buffer_id c = allocated st + 1 \<and>
              length (elems c) = numPoints f * 3))) \<and>
   (numPoints f \<le> maxPoints st \<longrightarrow>
      maxPoints (updatePointCloud st f) = maxPoints st \<and>
      allocated (updatePointCloud st f) = allocated st \<and>
      map_option buffer_id (positions (updatePointCloud st f)) = map_option buffer_id (positions st) \<and>
      map_option (\<lambda>p. length (elems p)) (positions (updatePointCloud st f)) =
        map_option (\<lambda>p. length (elems p)) (positions st) \<and>
      map_option buffer_id (colors (updatePointCloud st f)) = map_option buffer_id (colors st) \<and>
      map_option (\<lambda>c. length (elems c)) (colors (updatePointCloud st f)) =
        map_option (\<lambda>c. length (elems c)) (colors st)) \<and>
   maxPoints st \<le> maxPoints (updatePointCloud st f) \<and>
   maxPoints st \<le> maxPoints (ingest_all st fs) \<and>
   maxPoints (ingest_all st fs) = Max (set (maxPoints st # map numPoints fs))"
proof (intro conjI impI)
  assume g: "maxPoints st < numPoints f"
  show "maxPoints (updatePointCloud st f) = numPoints f"
    using g by (simp add: maxPoints_update)
  show "allocated st < allocated (updatePointCloud st f)"
    using g by (simp add: allocated_update grow_def Let_def split: option.splits)
  show "\<exists>p. positions (updatePointCloud st f) = Some p \<and> buffer_id p = allocated st \<and>
           length (elems p) = numPoints f * 3"
    using g positions_id_update [of st f] positions_length_update [of st f]
    by (auto simp: grow_def Let_def split: option.splits)
  show "\<exists>c. colors (updatePointCloud st f) = Some c \<and> buffer_id c = allocated st + 1 \<and>
           length (elems c) = numPoints f * 3" if "colorsArray f \<noteq> None"
    using g that colors_id_update [of st f] colors_length_update [of st f]
    by (auto simp: grow_def Let_def split: option.splits)
next
  assume n: "numPoints f \<le> maxPoints st"
  then have ng: "\<not> maxPoints st < numPoints f" by simp
  show "maxPoints (updatePointCloud st f) = maxPoints st"
    using n by (simp add: maxPoints_update)
  show "allocated (updatePointCloud st f) = allocated st"
    using ng by (simp add: allocated_update)
  show "map_option buffer_id (positions (updatePointCloud st f)) = map_option buffer_id (positions st)"
    using ng by (simp add: positions_id_update)
  show "map_option (\<lambda>p. length (elems p)) (positions (updatePointCloud st f)) =
        map_option (\<lambda>p. length (elems p)) (positions st)"
    using ng by (simp add: positions_length_update)
  show "map_option buffer_id (colors (updatePointCloud st f)) = map_option buffer_id (colors st)"
    using ng by (simp add: colors_id_update)
  show "map_option (\<lambda>c. length (elems c)) (colors (updatePointCloud st f)) =
        map_option (\<lambda>c. length (elems c)) (colors st)"
    using ng by (simp add: colors_length_update)
next
  show "maxPoints st \<le> maxPoints (updatePointCloud st f)"
    by (simp add: maxPoints_update)
  show "maxPoints st \<le> maxPoints (ingest_all st fs)"
    by (simp add: maxPoints_ingest_all fold_max_ge)
  show "maxPoints (ingest_all st fs) = Max (set (maxPoints st # map numPoints fs))"
    by (simp only: maxPoints_ingest_all Max.set_eq_fold)
qed


theorem capacity_is_high_water_mark_witness:
  "maxPoints initial_viewer < numPoints colored2 \<and> colorsArray colored2 \<noteq> None \<and>
   maxPoints (updatePointCloud initial_viewer colored2) = 2 \<and>
   (\<exists>p. positions (updatePointCloud initial_viewer colored2) = Some p \<and> buffer_id p = 0 \<and>
        length (elems p) = 6) \<and>
   (\<exists>c. colors (updatePointCloud initial_viewer colored2) = Some c \<and> buffer_id c = 1 \<and>
        length (elems c) = 6) \<and>
   numPoints plain1 \<le> maxPoints (updatePointCloud initial_viewer colored2) \<and>
   maxPoints (updatePointCloud (updatePointCloud initial_viewer colored2) plain1) = 2 \<and>
   allocated (updatePointCloud (updatePointCloud initial_viewer colored2) plain1) = 2 \<and>
   maxPoints (ingest_all initial_viewer [colored2, plain1]) = 2"
proof -
  let ?st = "updatePointCloud initial_viewer colored2"
  have h1: "maxPoints initial_viewer < numPoints colored2"
    and h2: "colorsArray colored2 \<noteq> None"
    and h3: "numPoints plain1 \<le> maxPoints ?st"
    by code_simp+
  have v: "numPoints colored2 = 2" "allocated initial_viewer = 0" "maxPoints ?st = 2"
    "allocated ?st = 2" "maxPoints initial_viewer = 0" "numPoints plain1 = 1"
    by code_simp+
  show ?thesis
    using h1 h2 h3 capacity_is_high_water_mark [of initial_viewer colored2 "[colored2, plain1]"]
      capacity_is_high_water_mark [of ?st plain1 "[]"]
    by (simp add: v)
qed

section \<open>Frame sequencer: properties\<close>

lemma compare_names_ok:
  "has_digit a \<Longrightarrow> has_digit b \<Longrightarrow>
   compare_names a b = Inr (int (frame_number a) - int (frame_number b))"
  by (auto simp: compare_names_def frame_number_def has_digit_def)

lemma compare_names_fail:
  "\<not> has_digit a \<or> \<not> has_digit b \<Longrightarrow> compare_names a b = Inl TypeError"
  by (auto simp: compare_names_def has_digit_def split: option.splits)

lemma insert_sorted_ok:
  "has_digit x \<Longrightarrow> \<forall>a\<in>set ys. has_digit a \<Longrightarrow>
   insert_sorted compare_names x ys = Inr (insert_by frame_number x ys)"
  by (induction ys) (auto simp: compare_names_ok)

lemma insert_sorted_fail:
  "\<not> has_digit x \<or> \<not> has_digit y \<Longrightarrow> insert_sorted compare_names x (y # ys) = Inl TypeError"
  using compare_names_fail [of y x] by auto

lemma set_insert_by [simp]: "set (insert_by key x ys) = insert x (set ys)"
  by (induction ys) auto

lemma mset_insert_by [simp]: "mset (insert_by key x ys) = add_mset x (mset ys)"
  by (induction ys) auto

lemma insert_by_not_Nil [simp]: "insert_by key x ys \<noteq> []"
  by (cases ys) auto

lemma sorted_insert_by:
  "sorted (map key ys) \<Longrightarrow> sorted (map key (insert_by key x ys))"
  by (induction ys) auto

lemma filter_insert_by:
  "sorted (map key ys) \<Longrightarrow>
   filter (\<lambda>a. key a = k) (insert_by key x ys) =
     filter (\<lambda>a. key a = k) ys @ (if key x = k then [x] else [])"
proof (induction ys)
  case Nil
  then show ?case by simp
next
  case (Cons y ys)
  show ?case
  proof (cases "key x < key y")
    case True
    have "filter (\<lambda>a. key a = k) (y # ys) = []" if "key x = k"
      using that True Cons.prems by (auto simp: filter_empty_conv)
    with True show ?thesis by auto
  next
    case False
    with Cons show ?thesis by auto
  qed
qed

lemma sort_from_ok:
  "\<forall>a\<in>set acc. has_digit a \<Longrightarrow> \<forall>a\<in>set xs. has_digit a \<Longrightarrow>
   sort_from compare_names acc xs = Inr (insertion_sort frame_number acc xs)"
  by (induction xs arbitrary: acc) (simp_all add: insertion_sort_def insert_sorted_ok)

lemma mset_insertion_sort: "mset (insertion_sort key acc xs) = mset acc + mset xs"
  by (induction xs arbitrary: acc) (simp_all add: insertion_sort_def)

lemma sorted_insertion_sort:
  "sorted (map key acc) \<Longrightarrow> sorted (map key (insertion_sort key acc xs))"
  by (induction xs arbitrary: acc) (simp_all add: insertion_sort_def sorted_insert_by)

lemma filter_insertion_sort:
  "sorted (map key acc) \<Longrightarrow>
   filter (\<lambda>a. key a = k) (insertion_sort key acc xs) =
     filter (\<lambda>a. key a = k) acc @ filter (\<lambda>a. key a = k) xs"
proof (induction xs arbitrary: acc)
  case Nil
  then show ?case by (simp add: insertion_sort_def)
next
  case (Cons x xs)
  have "insertion_sort key acc (x # xs) = insertion_sort key (insert_by key x acc) xs"
    by (simp add: insertion_sort_def)
  with Cons.IH [OF sorted_insert_by [OF Cons.prems]] filter_insert_by [OF Cons.prems, of k x]
  show ?case by simp
qed

lemma insertion_sort_is_sort_key: "insertion_sort key [] xs = sort_key key xs"
proof (rule sym, rule properties_for_sort_key)
  show "mset (insertion_sort key [] xs) = mset xs"
    by (simp add: mset_insertion_sort)
  show "sorted (map key (insertion_sort key [] xs))"
    by (simp add: sorted_insertion_sort)
  show "filter (\<lambda>x. key k = key x) (insertion_sort key [] xs) = filter (\<lambda>x. key k = key x) xs" for k
    using filter_insertion_sort [of key "[]" "key k" xs] by (simp add: eq_commute)
qed

lemma sort_from_fail:
  "acc \<noteq> [] \<Longrightarrow> \<forall>a\<in>set acc. has_digit a \<Longrightarrow> \<exists>a\<in>set xs. \<not> has_digit a \<Longrightarrow>
   sort_from compare_names acc xs = Inl TypeError"
proof (induction xs arbitrary: acc)
  case Nil
  then show ?case by simp
next
  case (Cons x xs)
  show ?case
  proof (cases "has_digit x")
    case False
    with Cons.prems(1) show ?thesis
      by (cases acc) (simp_all add: insert_sorted_fail del: insert_sorted.simps)
  next
    case True
    with Cons.prems have "\<exists>a\<in>set xs. \<not> has_digit a" by auto
    with Cons.IH [of "insert_by frame_number x acc"] Cons.prems(2) True show ?thesis
      by (simp add: insert_sorted_ok)
  qed
qed

lemma sort_from_first_fail:
  "\<not> has_digit x \<Longrightarrow> xs \<noteq> [] \<Longrightarrow> sort_from compare_names [x] xs = Inl TypeError"
  by (cases xs) (simp_all add: insert_sorted_fail del: insert_sorted.simps)

text \<open>
  C9. Frame names that all contain a digit (with numbers a JavaScript number holds exactly)
  are sorted ascending by the number of their first run of digits, names of equal number
  staying in their original order: the result is a permutation of the names, ascending in
  \<open>frame_number\<close>, with the names of each number in the order they had, which is the
  stable sort by that key. On the names frame10, frame2, frame1 the result is frame1, frame2,
  frame10.
\<close>

theorem frame_names_sorted_by_number:
  assumes "\<forall>a\<in>set frame_names. has_digit a"
    and "\<forall>a\<in>set frame_names. frame_number a < 2 ^ 53"
  shows "\<exists>sorted_names.
           sort_frame_names frame_names = Inr sorted_names \<and>
           mset sorted_names = mset frame_names \<and>
           sorted (map frame_number sorted_names) \<and>
           (\<forall>k. filter (\<lambda>a. frame_number a = k) sorted_names =
                filter (\<lambda>a. frame_number a = k) frame_names) \<and>
           sorted_names = sort_key frame_number frame_names"
proof -
  let ?ys = "insertion_sort frame_number [] frame_names"
  have "sort_frame_names frame_names = Inr ?ys"
    using assms(1) by (simp add: sort_frame_names_def array_sort_def sort_from_ok)
  moreover have "mset ?ys = mset frame_names"
    by (simp add: mset_insertion_sort)
  moreover have "sorted (map frame_number ?ys)"
    by (simp add: sorted_insertion_sort)
  moreover have "filter (\<lambda>a. frame_number a = k) ?ys = filter (\<lambda>a. frame_number a = k) frame_names" for k
    by (simp add: filter_insertion_sort)
  moreover have "?ys = sort_key frame_number frame_names"
    by (rule insertion_sort_is_sort_key)
  ultimately show ?thesis by blast
qed

theorem frame_names_sorted_by_number_witness:
  "has_digit ''frame10'' \<and> has_digit ''frame2'' \<and> has_digit ''frame1'' \<and>
   frame_number ''frame10'' = 10 \<and> frame_number ''frame2'' = 2 \<and> frame_number ''frame1'' = 1 \<and>
   sort_frame_names example_names = Inr [''frame1'', ''frame2'', ''frame10'']"
proof -
  have d: "has_digit ''frame10''" "has_digit ''frame2''" "has_digit ''frame1''"
    by code_simp+
  have n: "frame_number ''frame10'' = 10" "frame_number ''frame2'' = 2"
    "frame_number ''frame1'' = 1"
    by code_simp+
  have h1: "\<forall>a\<in>set example_names. has_digit a"
    using d by (simp add: example_names_def)
  have h2: "\<forall>a\<in>set example_names. frame_number a < 2 ^ 53"
    using n by (simp add: example_names_def)
  have "sort_key frame_number example_names = [''frame1'', ''frame2'', ''frame10'']"
    by code_simp
  with frame_names_sorted_by_number [OF h1 h2] d n show ?thesis by simp
qed

text \<open>
  C10, as the code has it. The comparator throws a TypeError on a name without a digit, but
  it runs only when there are two names to compare: the sort throws exactly when the list has
  at least two names and one of them has no digit. It returns a sorted list exactly when the
  list has fewer than two names or every name has a digit, and a list of fewer than two names
  is returned as it is.
\<close>

theorem sort_throws_iff:
  "(sort_frame_names frame_names = Inl TypeError \<longleftrightarrow>
      2 \<le> length frame_names \<and> (\<exists>a\<in>set frame_names. \<not> has_digit a)) \<and>
   ((\<exists>sorted_names. sort_frame_names frame_names = Inr sorted_names) \<longleftrightarrow>
      length frame_names < 2 \<or> (\<forall>a\<in>set frame_names. has_digit a)) \<and>
   (length frame_names < 2 \<longrightarrow> sort_frame_names frame_names = Inr frame_names)"
proof (cases frame_names)
  case Nil
  then show ?thesis by (simp add: sort_frame_names_def array_sort_def)
next
  case outer: (Cons x xs)
  show ?thesis
  proof (cases xs)
    case Nil
    with outer show ?thesis by (simp add: sort_frame_names_def array_sort_def)
  next
    case (Cons y ys)
    have start: "sort_frame_names frame_names = sort_from compare_names [x] xs"
      using outer by (simp add: sort_frame_names_def array_sort_def)
    have len: "2 \<le> length frame_names" "\<not> length frame_names < 2"
      using outer Cons by simp_all
    show ?thesis
    proof (cases "\<forall>a\<in>set frame_names. has_digit a")
      case True
      then have "sort_from compare_names [x] xs = Inr (insertion_sort frame_number [x] xs)"
        using outer by (intro sort_from_ok) simp_all
      with start True len show ?thesis by auto
    next
      case False
      have "sort_from compare_names [x] xs = Inl TypeError"
      proof (cases "has_digit x")
        case True
        with False outer have "\<exists>a\<in>set xs. \<not> has_digit a" by auto
        with True show ?thesis by (intro sort_from_fail) simp_all
      next
        case False
        then show ?thesis using Cons by (intro sort_from_first_fail) simp_all
      qed
      with start False len show ?thesis by auto
    qed
  qed
qed

theorem sort_throws_iff_witness:
  "2 \<le> length [''frame1'', ''intro''] \<and> \<not> has_digit ''intro'' \<and>
   sort_frame_names [''frame1'', ''intro''] = Inl TypeError \<and>
   length [''intro''] < 2 \<and> sort_frame_names [''intro''] = Inr [''intro''] \<and>
   has_digit ''frame1'' \<and> has_digit ''frame2'' \<and>
   (\<exists>sorted_names. sort_frame_names [''frame2'', ''frame1''] = Inr sorted_names)"
proof -
  have h: "\<not> has_digit ''intro''" "has_digit ''frame1''" "has_digit ''frame2''" by code_simp+
  show ?thesis
    using h sort_throws_iff [of "[''frame1'', ''intro'']"] sort_throws_iff [of "[''intro'']"]
      sort_throws_iff [of "[''frame2'', ''frame1'']"]
    by simp
qed

text \<open>
  C10, as the claim states it, fails on an archive with a single frame whose name has no
  digit: the sort returns the list and nothing is thrown.
\<close>

theorem sort_single_name_counterexample:
  "\<not> has_digit ''intro'' \<and> sort_frame_names [''intro''] = Inr [''intro'']"
  by code_simp

section \<open>Geometry buffer: what an ingest does\<close>

lemma consistent_initial: "consistent initial_viewer"
  by (simp add: consistent_def initial_viewer_def)

lemma consistent_cong:
  assumes "consistent st"
    and "maxPoints st' = maxPoints st"
    and "map_option buffer_id (positions st') = map_option buffer_id (positions st)"
    and "map_option (\<lambda>p. length (elems p)) (positions st') = map_option (\<lambda>p. length (elems p)) (positions st)"
    and "map_option buffer_id (colors st') = map_option buffer_id (colors st)"
    and "map_option (\<lambda>p. length (elems p)) (colors st') = map_option (\<lambda>p. length (elems p)) (colors st)"
    and "attr_position st' = attr_position st"
    and "attr_color st' = attr_color st"
  shows "consistent st'"
  using assms by (auto simp: consistent_def split: option.splits)

lemma consistent_grow: "maxPoints st < numPoints f \<Longrightarrow> consistent (grow st f)"
  by (simp add: consistent_def grow_def Let_def split: option.splits)

lemma consistent_copy_positions:
  "consistent st \<Longrightarrow> consistent (state_of (copy_positions st f))"
  by (erule consistent_cong) (simp_all add: copy_positions_others copy_positions_storage)

lemma consistent_copy_colors:
  "consistent st \<Longrightarrow> consistent (state_of (copy_colors st f))"
  by (erule consistent_cong) (simp_all add: copy_colors_others copy_colors_storage)

lemma consistent_finish: "consistent st \<Longrightarrow> consistent (finish_update st f)"
  by (simp add: consistent_def finish_update_def split: option.splits)

lemma consistent_try_update:
  assumes "consistent st"
  shows "consistent (state_of (try_update st f))"
proof -
  let ?st1 = "if maxPoints st < numPoints f then grow st f else st"
  have c1: "consistent ?st1" using assms by (simp add: consistent_grow)
  show ?thesis
  proof (cases "copy_positions ?st1 f")
    case (Inl x)
    then have "state_of (try_update st f) = state_of (copy_positions ?st1 f)"
      by (simp add: try_update_def)
    with consistent_copy_positions [OF c1, of f] show ?thesis by simp
  next
    case p: (Inr st2)
    with consistent_copy_positions [OF c1, of f] have c2: "consistent st2" by simp
    show ?thesis
    proof (cases "copy_colors st2 f")
      case (Inl x)
      with p have "state_of (try_update st f) = state_of (copy_colors st2 f)"
        by (simp add: try_update_def)
      with consistent_copy_colors [OF c2, of f] show ?thesis by simp
    next
      case (Inr st3)
      with p have "state_of (try_update st f) = finish_update st3 f"
        by (simp add: try_update_def)
      moreover have "consistent st3" using consistent_copy_colors [OF c2, of f] Inr by simp
      ultimately show ?thesis by (simp add: consistent_finish)
    qed
  qed
qed

lemma consistent_flags:
  "consistent (s\<lparr>error := e, isProcessing := b\<rparr>) = consistent s"
  "consistent (s\<lparr>isProcessing := b\<rparr>) = consistent s"
  "consistent (s\<lparr>error := e\<rparr>) = consistent s"
  by (simp_all add: consistent_def split: option.splits)

lemma consistent_update: "consistent st \<Longrightarrow> consistent (updatePointCloud st f)"
  using consistent_try_update [of st f]
  by (auto simp: updatePointCloud_def consistent_flags split: sum.splits)

lemma consistent_ingest_all: "consistent st \<Longrightarrow> consistent (ingest_all st fs)"
  by (induction fs arbitrary: st) (simp_all add: ingest_all_def consistent_update)


lemma normalize_loop_nth:
  "j < length cs \<Longrightarrow>
   normalize_loop ca i k cs ! j = (if i \<le> j \<and> j < i + k then normalized ca j else cs ! j)"
proof (induction k arbitrary: i cs)
  case 0
  then show ?case by auto
next
  case (Suc k)
  have "j < length (store cs i (normalized ca i))" using Suc.prems by (simp add: store_def)
  from Suc.IH [OF this, of "Suc i"] Suc.prems show ?case
    by (auto simp: store_def nth_list_update le_Suc_eq not_less_eq_eq)
qed

lemma copy_positions_read_back:
  assumes "copy_positions st f = Inr st'" and "length (positionsArray f) = numPoints f * 3"
  shows "\<exists>p. positions st' = Some p \<and> take (numPoints f * 3) (elems p) = positionsArray f"
  using assms by (auto simp: copy_positions_def Let_def split: option.splits if_splits)

lemma try_update_Inr:
  assumes "try_update st f = Inr st'"
  obtains st2 st3 where
    "copy_positions (if maxPoints st < numPoints f then grow st f else st) f = Inr st2"
    "copy_colors st2 f = Inr st3" "st' = finish_update st3 f"
  using assms by (auto simp: try_update_def Let_def split: sum.splits)

lemma ingest_reads_back:
  assumes "try_update st f = Inr st'" and "well_formed f"
  shows "\<exists>p. positions st' = Some p \<and> take (numPoints f * 3) (elems p) = positionsArray f"
    and "drawRange st' = Some (0, numPoints f)"
proof -
  from assms(1) obtain st2 st3 where
    p: "copy_positions (if maxPoints st < numPoints f then grow st f else st) f = Inr st2"
    and c: "copy_colors st2 f = Inr st3" and f: "st' = finish_update st3 f"
    by (rule try_update_Inr)
  from copy_positions_read_back [OF p] assms(2)
  obtain q where "positions st2 = Some q" "take (numPoints f * 3) (elems q) = positionsArray f"
    by (auto simp: well_formed_def)
  moreover have "positions st3 = positions st2"
    using copy_colors_others(3) [of st2 f] c by simp
  ultimately show "\<exists>p. positions st' = Some p \<and> take (numPoints f * 3) (elems p) = positionsArray f"
    using f by (simp add: finish_update_def)
  show "drawRange st' = Some (0, numPoints f)"
    using f by (simp add: finish_update_def)
qed

lemma ingest_stores_colors:
  assumes "try_update st f = Inr st'" and "colorsArray f = Some ca" and "consistent st"
  shows "\<exists>c. colors st' = Some c \<and> length (elems c) = maxPoints st' * 3 \<and>
           (\<forall>i<numPoints f * 3. elems c ! i = normalized ca i)"
proof -
  let ?st1 = "if maxPoints st < numPoints f then grow st f else st"
  from assms(1) obtain st2 st3 where
    p: "copy_positions ?st1 f = Inr st2"
    and c: "copy_colors st2 f = Inr st3" and f: "st' = finish_update st3 f"
    by (rule try_update_Inr)
  have c1: "consistent ?st1" using assms(3) by (simp add: consistent_grow)
  have n1: "numPoints f \<le> maxPoints ?st1" by (simp add: grow_def Let_def split: option.splits)
  have c2: "consistent st2" using consistent_copy_positions [OF c1, of f] p by simp
  have n2: "numPoints f \<le> maxPoints st2" using copy_positions_others(1) [of ?st1 f] p n1 by simp
  from c assms(2) obtain a col where a: "attr_color st2 = Some a" and col: "colors st2 = Some col"
    and st3: "st3 = st2\<lparr>colors := Some (col\<lparr>elems := normalize_loop ca 0 (numPoints f * 3) (elems col)\<rparr>)\<rparr>"
    using c2 by (auto simp: copy_colors_def Let_def consistent_def split: option.splits if_splits)
  have len: "length (elems col) = maxPoints st2 * 3"
    using c2 a col by (simp add: consistent_def)
  have "elems (col\<lparr>elems := normalize_loop ca 0 (numPoints f * 3) (elems col)\<rparr>) ! i = normalized ca i"
    if "i < numPoints f * 3" for i
    using that len n2 by (simp add: normalize_loop_nth)
  with st3 f len show ?thesis by (simp add: finish_update_def)
qed

lemma try_update_succeeds_iff:
  assumes "consistent st" and "well_formed f"
  shows "(\<exists>st'. try_update st f = Inr st') \<longleftrightarrow>
         maxPoints st < numPoints f \<or>
         (0 < maxPoints st \<and> (colorsArray f = None \<or> attr_color st \<noteq> None))"
proof (cases "maxPoints st < numPoints f")
  case True
  then show ?thesis using assms(2)
    by (auto simp: try_update_def grow_def copy_positions_def copy_colors_def Let_def
        well_formed_def split: option.splits)
next
  case False
  then show ?thesis using assms
    by (auto simp: try_update_def copy_positions_def copy_colors_def Let_def
        well_formed_def consistent_def split: option.splits)
qed

lemma colors_kept_without_colors:
  "colorsArray f = None \<Longrightarrow> numPoints f \<le> maxPoints st \<Longrightarrow>
   colors (updatePointCloud st f) = colors st \<and>
   attr_color (updatePointCloud st f) = attr_color st \<and>
   vertexColors (updatePointCloud st f) = vertexColors st"
  by (auto simp: updatePointCloud_def try_update_def copy_positions_def copy_colors_def Let_def
      finish_update_def split: option.splits sum.splits)

lemma colors_kept_on_growth_without_colors:
  "colorsArray f = None \<Longrightarrow> maxPoints st < numPoints f \<Longrightarrow>
   colors (updatePointCloud st f) = colors st \<and>
   attr_color (updatePointCloud st f) = None \<and>
   vertexColors (updatePointCloud st f) = False"
  by (auto simp: updatePointCloud_def try_update_def grow_def copy_positions_def copy_colors_def Let_def
      finish_update_def split: option.splits sum.splits)


lemma decode_Inr_long: "decode dv = Inr f \<Longrightarrow> required_length dv \<le> length dv"
  using decode_short [of dv] by (cases "required_length dv \<le> length dv") simp_all

lemma decode_well_formed: "decode dv = Inr f \<Longrightarrow> well_formed f"
proof -
  assume d: "decode dv = Inr f"
  then have l: "required_length dv \<le> length dv" by (rule decode_Inr_long)
  from decode_long [OF l] d show ?thesis
    by (auto simp: well_formed_def length_wire_positions length_wire_colors [OF l])
qed

lemma decode_two_points: "decode two_points = Inr colored2"
  by (simp add: decode_long two_points_def required_length_def header_points_def
      header_colors_def wire_positions_def wire_colors_def le32_simp upt_rec colored2_def)

lemma decode_empty: "decode [0, 0, 0, 0, 0] = Inr empty_frame"
  by (simp add: decode_long required_length_def header_points_def
      header_colors_def wire_positions_def wire_colors_def le32_simp empty_frame_def)

lemma ingest_empty_first:
  "updatePointCloud (initial_viewer\<lparr>isProcessing := True\<rparr>) empty_frame =
     initial_viewer\<lparr>error := Some ''Error updating point cloud''\<rparr>"
  by code_simp

lemma try_update_plain1_colored2:
  "try_update (ingest_all initial_viewer [plain1]) colored2 =
     Inr \<lparr>positions = Some \<lparr>buffer_id = 1,
                         elems = [0x3F800000, 0x40000000, 0x40400000, 0x40800000, 0x40A00000, 0x40C00000]\<rparr>,
      colors = Some \<lparr>buffer_id = 2,
                      elems = [Num 1, Num 0, Num (13421773 / 67108864), Num (10526881 / 268435456),
                               Num (10526881 / 134217728), Num (15790321 / 134217728)]\<rparr>,
      maxPoints = 2, isFirstUpdate = False, isProcessing = False,
      attr_position = Some 1, attr_color = Some 2, vertexColors = True,
      drawRange = Some (0, 2), error = None, allocated = 3\<rparr>"
  by code_simp


text \<open>
  C4 asks that \<open>updatePointCloud\<close> never throws on a well-formed frame, whatever was
  ingested before. The code throws (and its handler reports
  \<^verbatim>\<open>'Error updating point cloud'\<close>) on two kinds of well-formed input. A first
  frame of no points: \<^verbatim>\<open>maxPoints < numPoints\<close> is \<open>0 < 0\<close>, nothing is allocated,
  and \<^verbatim>\<open>positions.set\<close> is called on \<^verbatim>\<open>undefined\<close>. A frame with colours that
  does not grow the capacity, after frames without colours: the colour array is allocated in
  the growth branch only, so \<^verbatim>\<open>colors[i] = ...\<close> writes to \<^verbatim>\<open>undefined\<close>.
\<close>

theorem ingest_throws_on_well_formed_frames:
  "well_formed empty_frame \<and>
   thrown_by (try_update initial_viewer empty_frame) = Some TypeError \<and>
   error (updatePointCloud initial_viewer empty_frame) = Some ''Error updating point cloud'' \<and>
   well_formed plain2 \<and> well_formed colored1 \<and>
   thrown_by (try_update (updatePointCloud initial_viewer plain2) colored1) = Some TypeError \<and>
   error (ingest_all initial_viewer [plain2, colored1]) = Some ''Error updating point cloud''"
  by code_simp

text \<open>
  C5 asks that after the ingest of any valid frame the draw range is the frame's point count.
  After two points without colours, a frame of one point with colours has its positions
  copied, but the throw in the colour loop leaves the function before
  \<^verbatim>\<open>setDrawRange\<close>: the draw range stays at two points.
\<close>

theorem draw_range_not_updated:
  "well_formed plain2 \<and> well_formed colored1 \<and> numPoints colored1 = 1 \<and>
   ingest_all initial_viewer [plain2, colored1] =
     \<lparr>positions = Some \<lparr>buffer_id = 0,
                         elems = [0x40E00000, 0x41000000, 0x41100000, 0x40800000, 0x40A00000, 0x40C00000]\<rparr>,
      colors = None, maxPoints = 2, isFirstUpdate = False, isProcessing = False,
      attr_position = Some 0, attr_color = None, vertexColors = False,
      drawRange = Some (0, 2), error = Some ''Error updating point cloud'', allocated = 1\<rparr>"
  by code_simp

text \<open>
  C6 asks that a frame without colours after a frame with colours signals colours disabled.
  The code drops the colour attribute and resets \<^verbatim>\<open>vertexColors\<close> in the growth
  branch only. After two points with colours, a frame of one point without colours leaves the
  colour attribute bound and \<^verbatim>\<open>vertexColors\<close> true (the colour array itself is kept,
  as the claim says).
\<close>

theorem colors_not_disabled:
  "colorsArray colored2 \<noteq> None \<and> colorsArray plain1 = None \<and>
   ingest_all initial_viewer [colored2, plain1] =
     \<lparr>positions = Some \<lparr>buffer_id = 0,
                         elems = [0x40E00000, 0x41000000, 0x41100000, 0x40800000, 0x40A00000, 0x40C00000]\<rparr>,
      colors = Some \<lparr>buffer_id = 1,
                      elems = [Num 1, Num 0, Num (13421773 / 67108864), Num (10526881 / 268435456),
                               Num (10526881 / 134217728), Num (15790321 / 134217728)]\<rparr>,
      maxPoints = 2, isFirstUpdate = False, isProcessing = False,
      attr_position = Some 0, attr_color = Some 1, vertexColors = True,
      drawRange = Some (0, 1), error = None, allocated = 2\<rparr>"
  by code_simp

text \<open>
  C7 asks that a frame of no points is accepted without error in every state, also as the
  first frame. It decodes to empty arrays, but as the first message its ingest throws
  (\<^verbatim>\<open>positions\<close> is still \<^verbatim>\<open>undefined\<close>) and the viewer shows
  \<^verbatim>\<open>'Error updating point cloud'\<close>.
\<close>

theorem empty_first_frame_fails:
  "decode [0, 0, 0, 0, 0] = Inr empty_frame \<and> positionsArray empty_frame = [] \<and>
   thrown_by (try_update initial_viewer empty_frame) = Some TypeError \<and>
   handleWebSocketMessage sample_inflate initial_viewer [0, 0, 0, 0, 0] =
     (None, initial_viewer\<lparr>error := Some ''Error updating point cloud''\<rparr>)"
proof -
  have "thrown_by (try_update initial_viewer empty_frame) = Some TypeError" by code_simp
  moreover have "positionsArray empty_frame = []" by (simp add: empty_frame_def)
  moreover have "\<not> isProcessing initial_viewer" by (simp add: initial_viewer_def)
  moreover have "sample_inflate [0, 0, 0, 0, 0] = Inr [0, 0, 0, 0, 0]"
    by (simp add: sample_inflate_def)
  ultimately show ?thesis
    by (simp add: decode_empty handleWebSocketMessage_def parsePointCloudData_def ingest_empty_first)
qed

text \<open>
  C8, as the code has it. In PCV.vue the decoder hands on the colour bytes as they are on the
  wire, and \<open>updatePointCloud\<close> divides by 255 when it copies them in: in any state reached
  from the initial one, when the ingest of a decoded frame with colours completes, the stored
  colour at every index below \<open>numPoints * 3\<close> is \<open>divide_by_255\<close> of the byte, the
  quotient \<^verbatim>\<open>c / 255.0\<close> rounded to single precision by the store. The decoder of the
  worker, on the same buffer, returns the colours already divided by 255 and rounded.
\<close>

theorem colors_normalized_at_copy_in:
  assumes "decode dv = Inr f" and "colorsArray f = Some ca"
  shows "ca = wire_colors dv \<and>
         worker_decode dv =
           Inr \<lparr>w_positions = positionsArray f,
                w_colors = Some (map divide_by_255 ca),
                w_numPoints = numPoints f\<rparr> \<and>
         (\<forall>st'. try_update (ingest_all initial_viewer fs) f = Inr st' \<longrightarrow>
            (\<exists>c. colors st' = Some c \<and>
                 (\<forall>i<numPoints f * 3.
                    elems c ! i =
                      Num (round_to_bits 24 (round_to_bits 53 (of_nat (unat (ca ! i)) / 255))))))"
proof (intro conjI allI impI)
  have l: "required_length dv \<le> length dv" using assms(1) by (rule decode_Inr_long)
  have f: "f = \<lparr>positionsArray = wire_positions dv,
                colorsArray = (if header_colors dv then Some (wire_colors dv) else None),
                numPoints = header_points dv\<rparr>"
    using decode_long [OF l] assms(1) by simp
  with assms(2) have hc: "header_colors dv" by (auto split: if_splits)
  show ca: "ca = wire_colors dv" using f assms(2) hc by simp
  show "worker_decode dv =
          Inr \<lparr>w_positions = positionsArray f,
               w_colors = Some (map divide_by_255 ca),
               w_numPoints = numPoints f\<rparr>"
    using worker_decode_long [OF l] hc f ca by simp
  fix st'
  assume t: "try_update (ingest_all initial_viewer fs) f = Inr st'"
  have "consistent (ingest_all initial_viewer fs)"
    by (rule consistent_ingest_all [OF consistent_initial])
  from ingest_stores_colors [OF t assms(2) this]
  obtain c where c: "colors st' = Some c" "\<forall>i<numPoints f * 3. elems c ! i = normalized ca i"
    by blast
  have "length ca = numPoints f * 3"
    using decode_well_formed [OF assms(1)] assms(2) by (simp add: well_formed_def)
  with c show "\<exists>c. colors st' = Some c \<and>
      (\<forall>i<numPoints f * 3.
         elems c ! i = Num (round_to_bits 24 (round_to_bits 53 (of_nat (unat (ca ! i)) / 255))))"
    by (simp add: normalized_def divide_by_255_def)
qed

theorem colors_normalized_at_copy_in_witness:
  "decode two_points = Inr colored2 \<and> colorsArray colored2 = Some [255, 0, 51, 10, 20, 30] \<and>
   wire_colors two_points = [255, 0, 51, 10, 20, 30] \<and>
   (\<exists>st' c. try_update (ingest_all initial_viewer [plain1]) colored2 = Inr st' \<and>
      colors st' = Some c \<and>
      elems c ! 0 = Num 1 \<and> elems c ! 2 = Num (13421773 / 67108864) \<and>
      elems c ! 5 = Num (15790321 / 134217728))"
proof -
  have c: "colorsArray colored2 = Some [255, 0, 51, 10, 20, 30]"
    and n: "numPoints colored2 * 3 = 6"
    by (simp_all add: colored2_def)
  note copy_in = colors_normalized_at_copy_in [OF decode_two_points c, of "[plain1]"]
  from copy_in have w: "wire_colors two_points = [255, 0, 51, 10, 20, 30]" by simp
  from copy_in try_update_plain1_colored2 obtain st' cs
    where st': "try_update (ingest_all initial_viewer [plain1]) colored2 = Inr st'"
      and cs: "colors st' = Some cs"
      and v: "\<forall>i<numPoints colored2 * 3.
                elems cs ! i = divide_by_255 ([255, 0, 51, 10, 20, 30] ! i)"
    unfolding divide_by_255_def by blast
  have "elems cs ! 0 = Num 1" "elems cs ! 2 = Num (13421773 / 67108864)"
    "elems cs ! 5 = Num (15790321 / 134217728)"
    using v by (simp_all add: n divide_by_255_samples)
  with decode_two_points c w st' cs show ?thesis by blast
qed

text \<open>
  C8, as the claim states it, fails for the codec of the worker: its output for the colour
  bytes 255, 0, 51, 10, 20, 30 is normalized by the codec, not the bytes. And a stored colour
  is the quotient rounded to single precision: for the byte 51 it is
  \<open>13421773 / 2 ^ 26\<close>, which is not \<open>51 / 255\<close>.
\<close>

theorem worker_normalizes_counterexample:
  "worker_decode two_points =
     Inr \<lparr>w_positions = [0x3F800000, 0x40000000, 0x40400000, 0x40800000, 0x40A00000, 0x40C00000],
          w_colors = Some [Num 1, Num 0, Num (13421773 / 67108864), Num (10526881 / 268435456),
                           Num (10526881 / 134217728), Num (15790321 / 134217728)],
          w_numPoints = 2\<rparr> \<and>
   wire_colors two_points = [255, 0, 51, 10, 20, 30] \<and>
   divide_by_255 51 = Num (13421773 / 67108864) \<and> (13421773 / 67108864 :: rat) \<noteq> 51 / 255"
  by (simp add: worker_decode_long two_points_def required_length_def header_points_def
      header_colors_def wire_positions_def wire_colors_def le32_simp upt_rec
      divide_by_255_samples)

section \<open>Stream admission: properties\<close>

lemma busy_message_dropped:
  "isProcessing st \<Longrightarrow> handleWebSocketMessage inflate st data = (None, st)"
  by (simp add: handleWebSocketMessage_def)

lemma isProcessing_update [simp]: "\<not> isProcessing (updatePointCloud st f)"
  by (simp add: updatePointCloud_def split: sum.splits prod.splits)

lemma flag_reset_unless_string_thrown:
  assumes "\<not> isProcessing st" and "\<forall>s. inflate data \<noteq> Inl (Thrown_String s)"
  shows "fst (handleWebSocketMessage inflate st data) = None \<and>
         \<not> isProcessing (snd (handleWebSocketMessage inflate st data))"
  using assms
  by (auto simp: handleWebSocketMessage_def parsePointCloudData_def catch_parse_def
      split: sum.splits js_thrown.splits)

lemma flag_stays_set_when_string_thrown:
  assumes "\<not> isProcessing st" and "inflate data = Inl (Thrown_String s)"
  shows "handleWebSocketMessage inflate st data = (Some TypeError, st\<lparr>isProcessing := True\<rparr>)"
  using assms
  by (simp add: handleWebSocketMessage_def parsePointCloudData_def catch_parse_def)

text \<open>
  C3 asks that the flag is cleared when the pipeline ends by a failure of the decompressor.
  When the decompressor throws a string, the handler of \<^verbatim>\<open>parsePointCloudData\<close>
  throws at \<^verbatim>\<open>error.value = ...\<close> and \<^verbatim>\<open>isProcessing = false\<close> is not
  reached: the flag stays set, and the next message, a valid frame, is dropped.
\<close>

theorem flag_stays_set_after_inflate_throws:
  "handleWebSocketMessage sample_inflate initial_viewer [255, 255] =
     (Some TypeError, initial_viewer\<lparr>isProcessing := True\<rparr>) \<and>
   handleWebSocketMessage sample_inflate (initial_viewer\<lparr>isProcessing := True\<rparr>) two_points =
     (None, initial_viewer\<lparr>isProcessing := True\<rparr>)"
  by (simp add: handleWebSocketMessage_def parsePointCloudData_def catch_parse_def
      sample_inflate_def initial_viewer_def)

end
